theory Spec2Isabelle
  imports Main
begin

section \<open>The chat server of \<^verbatim>\<open>src/server.py\<close>\<close>

text \<open>
  The server keeps one list \<^verbatim>\<open>chat_members\<close> of \<^verbatim>\<open>Member\<close> objects and handles one
  datagram at a time with \<^verbatim>\<open>handle_message\<close>. Every path of \<^verbatim>\<open>handle_message\<close> ends in
  exactly one \<^verbatim>\<open>s.sendto(text.encode(), sender_info)\<close>; the model returns that text
  together with the list as it is left behind. A Python exception is the value \<open>Inl\<close>.

  The functions named after the source (\<open>join_group\<close> to \<open>handle_message\<close>, and \<open>serve\<close>)
  compute the reply handed to \<^verbatim>\<open>s.sendto\<close> and the registry, with the socket taking every
  reply. The socket's own failure, a reply longer than one datagram, is \<open>sendto\<close>, and
  \<open>handle_message_sent\<close> is \<open>handle_message\<close> with that failure in it. A string is a list
  of bytes, so the length of a reply is the length of what \<^verbatim>\<open>encode()\<close> hands to the socket.

  Every \<^verbatim>\<open>Member\<close> object is created by \<^verbatim>\<open>join_group\<close> and appended to the list once, so
  an object occurs at exactly one position of the list. The class defines no \<^verbatim>\<open>__eq__\<close>:
  \<^verbatim>\<open>m != member\<close> and \<^verbatim>\<open>chat_members.remove(member)\<close> compare object identity, which the
  model renders as the position in the list.
\<close>

subsection \<open>Data\<close>

text \<open>The exceptions of the source: \<^verbatim>\<open>substr[0]\<close> and \<^verbatim>\<open>pop(0)\<close> on an empty list,
  an attribute of \<^verbatim>\<open>None\<close>, and \<^verbatim>\<open>s.sendto\<close> refused by the socket.\<close>

datatype py_error = IndexError | AttributeError | OSError

text \<open>\<^verbatim>\<open>class Member\<close>: \<^verbatim>\<open>name\<close>, \<^verbatim>\<open>port\<close>, \<^verbatim>\<open>pending_messages\<close>.\<close>

record Member =
  name :: string
  port :: int
  pending_messages :: "string list"

text \<open>\<^verbatim>\<open>sender_info\<close> is the pair (IP address, port) that \<^verbatim>\<open>recvfrom\<close> returns;
  \<^verbatim>\<open>sender_info[1]\<close> is \<open>snd\<close>.\<close>

type_synonym sender_info = "string \<times> int"

definition add_message :: "Member \<Rightarrow> string \<Rightarrow> Member" where
  "add_message m message = m\<lparr>pending_messages := pending_messages m @ [message]\<rparr>"

definition clear_message_board :: "Member \<Rightarrow> Member" where
  "clear_message_board m = m\<lparr>pending_messages := []\<rparr>"

subsection \<open>Python's string primitives\<close>

text \<open>\<^verbatim>\<open>text.split(sep)\<close> for a one-character separator: every occurrence of the
  separator ends a token, so the result is never empty (\<^verbatim>\<open>"".split(' ') == ['']\<close>).\<close>

fun split_on :: "char \<Rightarrow> string \<Rightarrow> string list" where
  "split_on sep [] = [[]]"
| "split_on sep (c # cs) =
     (if c = sep then [] # split_on sep cs
      else (case split_on sep cs of
              [] \<Rightarrow> [[c]]
            | t # ts \<Rightarrow> (c # t) # ts))"

text \<open>\<^verbatim>\<open>sep.join(xs)\<close>.\<close>

fun py_join :: "string \<Rightarrow> string list \<Rightarrow> string" where
  "py_join sep [] = []"
| "py_join sep [x] = x"
| "py_join sep (x # y # ys) = x @ sep @ py_join sep (y # ys)"

text \<open>The list without the object at position \<open>i\<close>: what a loop guarded by
  \<^verbatim>\<open>m != member\<close> visits, and what \<^verbatim>\<open>chat_members.remove(member)\<close> leaves.\<close>

fun remove_at :: "nat \<Rightarrow> 'a list \<Rightarrow> 'a list" where
  "remove_at i [] = []"
| "remove_at 0 (x # xs) = xs"
| "remove_at (Suc i) (x # xs) = x # remove_at i xs"

subsection \<open>Registry lookups\<close>

text \<open>\<^verbatim>\<open>find_member_by_info\<close> returns the first member whose port is the sender's, and
  \<^verbatim>\<open>None\<close> when the loop ends without a match. The model returns the position of that
  object.\<close>

fun find_member_by_info :: "Member list \<Rightarrow> sender_info \<Rightarrow> nat option" where
  "find_member_by_info [] sender_info = None"
| "find_member_by_info (m # chat_members) sender_info =
     (if snd sender_info = port m then Some 0
      else map_option Suc (find_member_by_info chat_members sender_info))"

fun is_port_available :: "Member list \<Rightarrow> sender_info \<Rightarrow> bool" where
  "is_port_available [] sender_info = True"
| "is_port_available (m # chat_members) sender_info =
     (if port m = snd sender_info then False
      else is_port_available chat_members sender_info)"

subsection \<open>The codec\<close>

text \<open>\<^verbatim>\<open>merge_str\<close>: \<^verbatim>\<open>substr.pop(0)\<close> raises \<^verbatim>\<open>IndexError\<close> on the empty list; the loop
  appends every remaining token followed by a space; \<^verbatim>\<open>new_str[:-1]\<close> drops the last
  character (and is the empty string on the empty string).\<close>

definition merge_str :: "string list \<Rightarrow> py_error + string" where
  "merge_str substr =
     (case substr of
        [] \<Rightarrow> Inl IndexError
      | _ # rest \<Rightarrow> Inr (butlast (foldl (\<lambda>new_str sub. new_str @ sub @ '' '') [] rest)))"

text \<open>The spec's wording of the same operation: drop the first token, then join the
  remaining tokens with a single space.\<close>

definition spec_merge :: "string list \<Rightarrow> string" where
  "spec_merge tokens = py_join '' '' (drop 1 tokens)"

subsection \<open>The commands\<close>

definition display_other_members :: "sender_info \<Rightarrow> Member list \<Rightarrow> string" where
  "display_other_members sender_info chat_members =
     (let name_list =
            (case find_member_by_info chat_members sender_info of
               None \<Rightarrow> map name chat_members
             | Some i \<Rightarrow> map name (remove_at i chat_members))
      in if length chat_members = 1 then [] else py_join '', '' name_list)"

definition join_group ::
    "string list \<Rightarrow> sender_info \<Rightarrow> Member list \<Rightarrow> py_error + (string \<times> Member list)" where
  "join_group substr sender_info chat_members =
     (case merge_str substr of
        Inl e \<Rightarrow> Inl e
      | Inr nm \<Rightarrow>
          (let informed = map (\<lambda>m. add_message m (nm @ '' has joined'')) chat_members;
               member = \<lparr>name = nm, port = snd sender_info, pending_messages = []\<rparr>;
               chat_members' = informed @ [member]
           in Inr (display_other_members sender_info chat_members', chat_members')))"

definition refresh_messages ::
    "sender_info \<Rightarrow> Member list \<Rightarrow> py_error + (string \<times> Member list)" where
  "refresh_messages sender_info chat_members =
     (case find_member_by_info chat_members sender_info of
        None \<Rightarrow> Inl AttributeError
      | Some i \<Rightarrow>
          (if length (pending_messages (chat_members ! i)) = 0 then Inr ([], chat_members)
           else Inr (foldl (\<lambda>final_msg msg. final_msg @ msg @ [CHR 0x0A]) []
                       (pending_messages (chat_members ! i)),
                     chat_members[i := clear_message_board (chat_members ! i)])))"

definition send_message ::
    "string list \<Rightarrow> sender_info \<Rightarrow> Member list \<Rightarrow> py_error + (string \<times> Member list)" where
  "send_message substr sender_info chat_members =
     (case find_member_by_info chat_members sender_info of
        None \<Rightarrow> Inl AttributeError
      | Some i \<Rightarrow>
          (let nm = name (chat_members ! i) in
           case merge_str substr of
             Inl e \<Rightarrow> Inl e
           | Inr message \<Rightarrow>
               (let full_message = nm @ '': '' @ message
                in refresh_messages sender_info
                     (map (\<lambda>m. if name m \<noteq> nm then add_message m full_message else m)
                        chat_members))))"

definition change_name ::
    "string list \<Rightarrow> sender_info \<Rightarrow> Member list \<Rightarrow> py_error + (string \<times> Member list)" where
  "change_name substr sender_info chat_members =
     (case find_member_by_info chat_members sender_info of
        None \<Rightarrow> Inl AttributeError
      | Some i \<Rightarrow>
          (let old_name = name (chat_members ! i) in
           case merge_str substr of
             Inl e \<Rightarrow> Inl e
           | Inr new_name \<Rightarrow>
               (let message = old_name @ '' changed his name to '' @ new_name
                in refresh_messages sender_info
                     (map (\<lambda>m. if snd sender_info \<noteq> port m then add_message m message
                                else m\<lparr>name := new_name\<rparr>)
                        chat_members))))"

definition leave_group ::
    "sender_info \<Rightarrow> Member list \<Rightarrow> py_error + (string \<times> Member list)" where
  "leave_group sender_info chat_members =
     (case find_member_by_info chat_members sender_info of
        None \<Rightarrow> Inl AttributeError
      | Some i \<Rightarrow>
          (let nm = name (chat_members ! i)
           in Inr ([], map (\<lambda>m. add_message m (nm @ '' has left the group''))
                         (remove_at i chat_members))))"

subsection \<open>The dispatcher\<close>

definition illegal_msg :: string where
  "illegal_msg = ''Illegal request''"

definition handle_message ::
    "string \<Rightarrow> sender_info \<Rightarrow> Member list \<Rightarrow> py_error + (string \<times> Member list)" where
  "handle_message message sender_info chat_members =
     (let substr = split_on CHR '' '' message in
      case substr of
        [] \<Rightarrow> Inl IndexError
      | tok # _ \<Rightarrow>
          if tok = ''1'' then
            (if \<not> is_port_available chat_members sender_info
             then Inr (illegal_msg, chat_members)
             else join_group substr sender_info chat_members)
          else if is_port_available chat_members sender_info
            then Inr (illegal_msg, chat_members)
          else if tok = ''2'' then send_message substr sender_info chat_members
          else if tok = ''3'' then change_name substr sender_info chat_members
          else if tok = ''4'' then leave_group sender_info chat_members
          else if tok = ''5'' then refresh_messages sender_info chat_members
          else Inr (illegal_msg, chat_members))"

text \<open>The main loop, on a finite sequence of received datagrams: the responses sent, in
  order, and the registry afterwards. An exception ends the process. Each datagram is
  given as the text that \<^verbatim>\<open>message.decode()\<close> returned: bytes that do not decode raise in
  the loop itself, before \<^verbatim>\<open>handle_message\<close> is called, and are no input of this
  function.\<close>

fun serve ::
    "(string \<times> sender_info) list \<Rightarrow> Member list \<Rightarrow> py_error + (string list \<times> Member list)" where
  "serve [] chat_members = Inr ([], chat_members)"
| "serve ((message, sender_info) # rest) chat_members =
     (case handle_message message sender_info chat_members of
        Inl e \<Rightarrow> Inl e
      | Inr (response, chat_members') \<Rightarrow>
          (case serve rest chat_members' of
             Inl e \<Rightarrow> Inl e
           | Inr (responses, final) \<Rightarrow> Inr (response # responses, final)))"

subsection \<open>The socket\<close>

text \<open>\<^verbatim>\<open>s.sendto(data, address)\<close> on the datagram socket sends \<open>data\<close> as one datagram or
  raises: data longer than the largest datagram of the transport (65507 bytes for UDP
  over IPv4) is refused with \<^verbatim>\<open>OSError\<close>. The largest datagram is the parameter
  \<open>max_datagram\<close>.\<close>

definition sendto :: "nat \<Rightarrow> string \<Rightarrow> py_error + unit" where
  "sendto max_datagram data = (if max_datagram < length data then Inl OSError else Inr ())"

text \<open>\<^verbatim>\<open>handle_message\<close> with the socket in it. On every path the \<^verbatim>\<open>s.sendto\<close> is the last
  statement, but for the one of \<^verbatim>\<open>refresh_messages\<close> that flushes a mailbox, where only
  \<^verbatim>\<open>member.clear_message_board()\<close> follows it. Nothing catches the exception of a refused
  send: it leaves \<^verbatim>\<open>handle_message\<close> and the loop, so the statements after the send are
  not run and no registry is left behind. Otherwise the reply and the registry are those
  of \<open>handle_message\<close>.\<close>

definition handle_message_sent ::
    "nat \<Rightarrow> string \<Rightarrow> sender_info \<Rightarrow> Member list \<Rightarrow> py_error + (string \<times> Member list)" where
  "handle_message_sent max_datagram message sender_info chat_members =
     (case handle_message message sender_info chat_members of
        Inl e \<Rightarrow> Inl e
      | Inr (response, chat_members') \<Rightarrow>
          (case sendto max_datagram response of
             Inl e \<Rightarrow> Inl e
           | Inr _ \<Rightarrow> Inr (response, chat_members')))"

text \<open>The spec's wording of a mailbox flush: the queued strings joined with a newline
  separator, with a trailing newline after the final entry; the empty string when nothing
  is pending.\<close>

definition spec_flush :: "string list \<Rightarrow> string" where
  "spec_flush pending =
     (if pending = [] then [] else py_join ''\<newline>'' pending @ ''\<newline>'')"

section \<open>Codec\<close>

lemma split_on_not_Nil: "split_on sep s \<noteq> []"
  by (induction s) (auto split: list.splits)

lemma foldl_append_each: "foldl (\<lambda>acc x. acc @ f x) a xs = a @ concat (map f xs)"
  by (induction xs arbitrary: a) auto

lemma butlast_concat_sep: "butlast (concat (map (\<lambda>s. s @ [c]) xs)) = py_join [c] xs"
proof (induction "[c]" xs rule: py_join.induct)
  case (3 x y ys)
  have "concat (map (\<lambda>s. s @ [c]) (y # ys)) \<noteq> []" by simp
  then show ?case using 3 by (simp add: butlast_append)
qed simp_all

lemma merge_str_Cons: "merge_str (t # ts) = Inr (py_join '' '' ts)"
  by (simp add: merge_str_def foldl_append_each butlast_concat_sep)

lemma py_join_split_on: "py_join [sep] (split_on sep s) = s"
proof (induction s)
  case Nil
  show ?case by simp
next
  case (Cons c cs)
  obtain t ts where ts: "split_on sep cs = t # ts"
    using split_on_not_Nil[of sep cs] by (cases "split_on sep cs") auto
  show ?case using Cons ts by (cases ts) auto
qed

lemma split_on_prefix: "sep \<notin> set c \<Longrightarrow> split_on sep (c @ sep # p) = c # split_on sep p"
  by (induction c) auto

text \<open>
  C6. On a token list with a first token, \<open>merge_str\<close> returns what the spec's merge
  describes: the tokens after the first, joined by one space (the empty string when none
  remain). Only the list with no token at all, which splitting never produces, has no
  first token to drop: there \<^verbatim>\<open>pop(0)\<close> raises. Hence, for a command code \<open>c\<close> (a
  token, so without a space) and any payload \<open>p\<close>, spaces included, splitting the line
  \<open>c p\<close> on single spaces and merging gives back \<open>p\<close>.
\<close>

theorem merge_str_roundtrip:
  "merge_str (t # ts) = Inr (spec_merge (t # ts)) \<and>
   merge_str [t] = Inr [] \<and>
   merge_str [] = Inl IndexError \<and>
   (CHR '' '' \<notin> set c \<longrightarrow> merge_str (split_on CHR '' '' (c @ '' '' @ p)) = Inr p)"
  using py_join_split_on[of "CHR '' ''" p]
  by (simp add: merge_str_Cons spec_merge_def split_on_prefix) (simp add: merge_str_def)

theorem merge_str_roundtrip_witness:
  "merge_str [''2'', ''hello'', [], ''big'', ''world''] = Inr ''hello  big world'' \<and>
   merge_str (split_on CHR '' '' ''2 hello  big world'') = Inr ''hello  big world''"
  using merge_str_roundtrip[of "''2''" "[''hello'', [], ''big'', ''world'']" "''2''" "''hello  big world''"]
  by (simp add: spec_merge_def)

section \<open>Registry lookups and list surgery\<close>

lemma available_iff_port: "is_port_available ms si \<longleftrightarrow> snd si \<notin> port ` set ms"
  by (induction ms) auto

lemma find_None_iff: "find_member_by_info ms si = None \<longleftrightarrow> is_port_available ms si"
  by (induction ms) auto

lemma find_SomeD:
  "find_member_by_info ms si = Some i \<Longrightarrow> i < length ms \<and> port (ms ! i) = snd si"
  by (induction ms arbitrary: i) (auto split: if_splits)

lemma find_ports_cong:
  "map port ms' = map port ms \<Longrightarrow> snd si' = snd si \<Longrightarrow>
   find_member_by_info ms' si' = find_member_by_info ms si"
proof (induction ms arbitrary: ms')
  case Nil
  then show ?case by simp
next
  case (Cons m ms)
  then obtain m' ms'' where "ms' = m' # ms''" by (cases ms') auto
  with Cons show ?case by auto
qed

lemma available_ports_cong:
  "map port ms' = map port ms \<Longrightarrow> snd si' = snd si \<Longrightarrow>
   is_port_available ms' si' = is_port_available ms si"
  using available_iff_port[of ms' si'] available_iff_port[of ms si]
  by (metis list.set_map)

lemma find_append_new:
  "is_port_available ms si \<Longrightarrow> port m = snd si \<Longrightarrow>
   find_member_by_info (ms @ [m]) si = Some (length ms)"
  by (induction ms) auto

lemma remove_at_length_append [simp]: "remove_at (length xs) (xs @ [x]) = xs"
  by (induction xs) auto

lemma remove_at_filter:
  "distinct (map f xs) \<Longrightarrow> i < length xs \<Longrightarrow> remove_at i xs = filter (\<lambda>x. f x \<noteq> f (xs ! i)) xs"
proof (induction i xs rule: remove_at.induct)
  case (2 x xs)
  then have "\<forall>y\<in>set xs. f y \<noteq> f x" by (auto simp: image_iff)
  then show ?case by simp
next
  case (3 i x xs)
  then have "f x \<noteq> f (xs ! i)" by (auto simp: image_iff)
  with 3 show ?case by simp
qed simp

lemma set_remove_at: "set (remove_at i xs) \<subseteq> set xs"
  by (induction i xs rule: remove_at.induct) auto

lemma distinct_remove_at: "distinct (map f xs) \<Longrightarrow> distinct (map f (remove_at i xs))"
proof (induction i xs rule: remove_at.induct)
  case (3 i x xs)
  then show ?case using set_remove_at[of i xs] by auto
qed simp_all

section \<open>What each command does\<close>

lemma add_message_sel [simp]:
  "name (add_message m x) = name m"
  "port (add_message m x) = port m"
  "pending_messages (add_message m x) = pending_messages m @ [x]"
  by (simp_all add: add_message_def)

lemma clear_message_board_sel [simp]:
  "name (clear_message_board m) = name m"
  "port (clear_message_board m) = port m"
  "pending_messages (clear_message_board m) = []"
  by (simp_all add: clear_message_board_def)

lemma refresh_messages_Some:
  assumes "find_member_by_info ms si = Some i"
  shows "refresh_messages si ms =
           Inr (concat (map (\<lambda>n. n @ ''\<newline>'') (pending_messages (ms ! i))),
                ms[i := clear_message_board (ms ! i)])"
proof (cases "pending_messages (ms ! i) = []")
  case True
  then have "clear_message_board (ms ! i) = ms ! i"
    by (cases "ms ! i") (simp add: clear_message_board_def)
  then have c: "ms[i := clear_message_board (ms ! i)] = ms"
    by simp
  show ?thesis using True assms by (simp add: refresh_messages_def c)
next
  case False
  with assms show ?thesis by (simp add: refresh_messages_def foldl_append_each)
qed

lemma display_other_members_new:
  assumes "is_port_available ms si" "port m = snd si"
  shows "display_other_members si (ms @ [m]) = py_join '', '' (map name ms)"
proof (cases "ms = []")
  case True
  then show ?thesis by (simp add: display_other_members_def)
next
  case False
  then have "length ms \<noteq> 0" by simp
  then show ?thesis
    using find_append_new[OF assms] by (simp add: display_other_members_def)
qed

lemma handle_message_join:
  assumes "split_on CHR '' '' message = ''1'' # payload" "is_port_available ms si"
  shows "handle_message message si ms =
           Inr (py_join '', '' (map name ms),
                map (\<lambda>m. add_message m (py_join '' '' payload @ '' has joined'')) ms
                @ [\<lparr>name = py_join '' '' payload, port = snd si, pending_messages = []\<rparr>])"
proof -
  have "is_port_available (map (\<lambda>m. add_message m (py_join '' '' payload @ '' has joined'')) ms) si"
    using assms(2) available_ports_cong[of "map (\<lambda>m. add_message m (py_join '' '' payload @ '' has joined'')) ms" ms si si]
    by (simp add: comp_def)
  then show ?thesis
    using assms
    by (simp add: handle_message_def join_group_def merge_str_Cons Let_def
        display_other_members_new comp_def)
qed

lemma handle_message_join_taken:
  assumes "split_on CHR '' '' message = ''1'' # payload" "\<not> is_port_available ms si"
  shows "handle_message message si ms = Inr (''Illegal request'', ms)"
  using assms by (simp add: handle_message_def illegal_msg_def)

lemma handle_message_unregistered:
  assumes "split_on CHR '' '' message = tok # payload" "tok \<noteq> ''1''" "is_port_available ms si"
  shows "handle_message message si ms = Inr (''Illegal request'', ms)"
  using assms by (simp add: handle_message_def illegal_msg_def)

lemma handle_message_unrecognized:
  assumes "split_on CHR '' '' message = tok # payload"
    "tok \<noteq> ''1''" "tok \<noteq> ''2''" "tok \<noteq> ''3''" "tok \<noteq> ''4''" "tok \<noteq> ''5''"
  shows "handle_message message si ms = Inr (''Illegal request'', ms)"
  using assms by (simp add: handle_message_def illegal_msg_def Let_def)

lemma handle_message_poll:
  assumes "split_on CHR '' '' message = ''5'' # payload" "find_member_by_info ms si = Some i"
  shows "handle_message message si ms =
           Inr (concat (map (\<lambda>n. n @ ''\<newline>'') (pending_messages (ms ! i))),
                ms[i := clear_message_board (ms ! i)])"
proof -
  have "\<not> is_port_available ms si" using assms(2) find_None_iff[of ms si] by simp
  then show ?thesis
    using assms by (simp add: handle_message_def refresh_messages_Some)
qed

lemma handle_message_leave:
  assumes "split_on CHR '' '' message = ''4'' # payload" "find_member_by_info ms si = Some i"
  shows "handle_message message si ms =
           Inr ([], map (\<lambda>m. add_message m (name (ms ! i) @ '' has left the group''))
                      (remove_at i ms))"
proof -
  have "\<not> is_port_available ms si" using assms(2) find_None_iff[of ms si] by simp
  then show ?thesis
    using assms by (simp add: handle_message_def leave_group_def)
qed

lemma handle_message_send:
  assumes "split_on CHR '' '' message = ''2'' # payload" "find_member_by_info ms si = Some i"
  shows "handle_message message si ms =
           Inr (concat (map (\<lambda>n. n @ ''\<newline>'') (pending_messages (ms ! i))),
                (map (\<lambda>m. if name m \<noteq> name (ms ! i)
                           then add_message m (name (ms ! i) @ '': '' @ py_join '' '' payload)
                           else m) ms)
                [i := clear_message_board (ms ! i)])"
proof -
  let ?f = "\<lambda>m. if name m \<noteq> name (ms ! i)
                 then add_message m (name (ms ! i) @ '': '' @ py_join '' '' payload) else m"
  have av: "\<not> is_port_available ms si" using assms(2) find_None_iff[of ms si] by simp
  have "map port (map ?f ms) = map port ms" by (simp add: comp_def)
  then have f: "find_member_by_info (map ?f ms) si = Some i"
    using find_ports_cong[of "map ?f ms" ms si si] assms(2) by simp
  have i: "i < length ms" using find_SomeD[OF assms(2)] by simp
  then have at: "map ?f ms ! i = ms ! i" by simp
  have "handle_message message si ms = refresh_messages si (map ?f ms)"
    using assms av by (simp add: handle_message_def send_message_def merge_str_Cons Let_def cong: if_cong)
  then show ?thesis
    by (simp only: refresh_messages_Some[OF f] at)
qed

lemma handle_message_rename:
  assumes "split_on CHR '' '' message = ''3'' # payload" "find_member_by_info ms si = Some i"
  shows "handle_message message si ms =
           Inr (concat (map (\<lambda>n. n @ ''\<newline>'') (pending_messages (ms ! i))),
                (map (\<lambda>m. if snd si \<noteq> port m
                           then add_message m (name (ms ! i) @ '' changed his name to ''
                                                 @ py_join '' '' payload)
                           else m\<lparr>name := py_join '' '' payload\<rparr>) ms)
                [i := clear_message_board ((ms ! i)\<lparr>name := py_join '' '' payload\<rparr>)])"
proof -
  let ?f = "\<lambda>m. if snd si \<noteq> port m
                 then add_message m (name (ms ! i) @ '' changed his name to ''
                                       @ py_join '' '' payload)
                 else m\<lparr>name := py_join '' '' payload\<rparr>"
  have av: "\<not> is_port_available ms si" using assms(2) find_None_iff[of ms si] by simp
  have "map port (map ?f ms) = map port ms" by (simp add: comp_def)
  then have f: "find_member_by_info (map ?f ms) si = Some i"
    using find_ports_cong[of "map ?f ms" ms si si] assms(2) by simp
  have i: "i < length ms" "port (ms ! i) = snd si" using find_SomeD[OF assms(2)] by simp_all
  then have at: "map ?f ms ! i = (ms ! i)\<lparr>name := py_join '' '' payload\<rparr>" by simp
  have "handle_message message si ms = refresh_messages si (map ?f ms)"
    using assms av by (simp add: handle_message_def change_name_def merge_str_Cons Let_def cong: if_cong)
  then show ?thesis
    unfolding refresh_messages_Some[OF f] at by simp
qed

section \<open>The dispatcher as a whole\<close>

lemma find_Some_if_taken:
  "\<not> is_port_available ms si \<Longrightarrow> \<exists>i. find_member_by_info ms si = Some i"
  using find_None_iff[of ms si] by (cases "find_member_by_info ms si") auto

lemma handle_message_cases:
  obtains (join) payload where "split_on CHR '' '' message = ''1'' # payload" "is_port_available ms si"
  | (taken) payload where "split_on CHR '' '' message = ''1'' # payload" "\<not> is_port_available ms si"
  | (unregistered) tok payload where "split_on CHR '' '' message = tok # payload" "tok \<noteq> ''1''"
      "is_port_available ms si"
  | (send) payload i where "split_on CHR '' '' message = ''2'' # payload"
      "find_member_by_info ms si = Some i"
  | (rename) payload i where "split_on CHR '' '' message = ''3'' # payload"
      "find_member_by_info ms si = Some i"
  | (leave) payload i where "split_on CHR '' '' message = ''4'' # payload"
      "find_member_by_info ms si = Some i"
  | (poll) payload i where "split_on CHR '' '' message = ''5'' # payload"
      "find_member_by_info ms si = Some i"
  | (unrecognized) tok payload i where "split_on CHR '' '' message = tok # payload"
      "tok \<noteq> ''1''" "tok \<noteq> ''2''" "tok \<noteq> ''3''" "tok \<noteq> ''4''" "tok \<noteq> ''5''"
      "find_member_by_info ms si = Some i"
proof -
  obtain tok payload where sp: "split_on CHR '' '' message = tok # payload"
    using split_on_not_Nil[of "CHR '' ''" message] by (cases "split_on CHR '' '' message") auto
  show thesis
  proof (cases "is_port_available ms si")
    case True
    with sp join unregistered show thesis by (cases "tok = ''1''") auto
  next
    case False
    then obtain i where "find_member_by_info ms si = Some i"
      using find_Some_if_taken by blast
    with sp False taken send rename leave poll unrecognized show thesis
      by (metis)
  qed
qed

lemma ports_kept:
  "(\<And>m. port (f m) = port m) \<Longrightarrow> i < length ms \<Longrightarrow> port y = port (ms ! i) \<Longrightarrow>
   map port ((map f ms)[i := y]) = map port ms"
  by (simp add: list_eq_iff_nth_eq nth_list_update)

lemma handle_message_ports:
  assumes "distinct (map port ms)"
  shows "\<exists>response ms'. handle_message message si ms = Inr (response, ms')
            \<and> distinct (map port ms')"
proof (cases message ms si rule: handle_message_cases)
  case (join payload)
  then show ?thesis
    using assms handle_message_join[OF join] available_iff_port[of ms si]
    by (simp add: comp_def)
next
  case (taken payload)
  then show ?thesis using assms handle_message_join_taken[OF taken] by simp
next
  case (unregistered tok payload)
  then show ?thesis using assms handle_message_unregistered[OF unregistered] by simp
next
  case (send payload i)
  show ?thesis
    unfolding handle_message_send[OF send] using assms find_SomeD[OF send(2)]
    by (simp add: ports_kept)
next
  case (rename payload i)
  show ?thesis
    unfolding handle_message_rename[OF rename] using assms find_SomeD[OF rename(2)]
    by (simp add: ports_kept)
next
  case (leave payload i)
  then show ?thesis using assms handle_message_leave[OF leave] distinct_remove_at[of port ms i]
    by (simp add: comp_def)
next
  case (poll payload i)
  show ?thesis
    unfolding handle_message_poll[OF poll] using assms find_SomeD[OF poll(2)]
      ports_kept[of "\<lambda>m. m" i ms "clear_message_board (ms ! i)"]
    by simp
next
  case (unrecognized tok payload i)
  then show ?thesis using assms handle_message_unrecognized[of message tok payload si ms] by simp
qed

lemma serve_ports:
  "distinct (map port ms) \<Longrightarrow>
   \<exists>responses ms'. serve commands ms = Inr (responses, ms') \<and> distinct (map port ms')"
proof (induction commands arbitrary: ms)
  case Nil
  then show ?case by simp
next
  case (Cons c commands)
  obtain message si where c: "c = (message, si)" by (cases c)
  obtain r ms1 where h: "handle_message message si ms = Inr (r, ms1)" "distinct (map port ms1)"
    using handle_message_ports[OF Cons.prems] by blast
  obtain rs ms2 where s: "serve commands ms1 = Inr (rs, ms2)" "distinct (map port ms2)"
    using Cons.IH[OF h(2)] by blast
  show ?case using c h s by simp
qed

section \<open>The claims\<close>

text \<open>
  C1. Registry uniqueness. Whatever datagrams the server has handled since it started with
  the empty registry, it has answered each of them, and the ports of the registered
  members are pairwise distinct. In the registry so reached, a Join (first token \<open>1\<close>)
  from an address whose port is registered is answered \<open>Illegal request\<close> and leaves the
  registry as it was.
\<close>

theorem registry_uniqueness:
  "\<exists>responses ms. serve commands [] = Inr (responses, ms) \<and> distinct (map port ms) \<and>
     (\<forall>message payload si.
        split_on CHR '' '' message = ''1'' # payload \<and> snd si \<in> port ` set ms \<longrightarrow>
        handle_message message si ms = Inr (''Illegal request'', ms))"
proof -
  obtain responses ms where s: "serve commands [] = Inr (responses, ms)" "distinct (map port ms)"
    using serve_ports[of "[]" commands] by auto
  have "handle_message message si ms = Inr (''Illegal request'', ms)"
    if "split_on CHR '' '' message = ''1'' # payload" "snd si \<in> port ` set ms"
    for message payload si
    using that handle_message_join_taken[of message payload ms si] available_iff_port[of ms si]
    by simp
  with s show ?thesis by blast
qed

theorem registry_uniqueness_witness:
  "serve [(''1 Alice'', (''10.0.0.1'', 5001))] []
     = Inr ([[]], [\<lparr>name = ''Alice'', port = 5001, pending_messages = []\<rparr>]) \<and>
   split_on CHR '' '' ''1 Bob'' = [''1'', ''Bob''] \<and>
   (5001::int) \<in> port ` set [\<lparr>name = ''Alice'', port = 5001, pending_messages = []\<rparr>] \<and>
   handle_message ''1 Bob'' (''10.0.0.2'', 5001)
       [\<lparr>name = ''Alice'', port = 5001, pending_messages = []\<rparr>]
     = Inr (''Illegal request'', [\<lparr>name = ''Alice'', port = 5001, pending_messages = []\<rparr>])"
proof -
  let ?A = "\<lparr>name = ''Alice'', port = 5001, pending_messages = []\<rparr>"
  have run: "serve [(''1 Alice'', (''10.0.0.1'', 5001))] [] = Inr ([[]], [?A])"
    by code_simp
  have sp: "split_on CHR '' '' ''1 Bob'' = [''1'', ''Bob'']" by simp
  obtain responses ms where
    s: "serve [(''1 Alice'', (''10.0.0.1'', 5001))] [] = Inr (responses, ms)" and
    j: "\<And>message payload si.
          split_on CHR '' '' message = ''1'' # payload \<and> snd si \<in> port ` set ms \<Longrightarrow>
          handle_message message si ms = Inr (''Illegal request'', ms)"
    using registry_uniqueness[of "[(''1 Alice'', (''10.0.0.1'', 5001))]"] by blast
  from s run have ms: "ms = [?A]" by simp
  have "handle_message ''1 Bob'' (''10.0.0.2'', 5001) [?A] = Inr (''Illegal request'', [?A])"
    using j[of "''1 Bob''" "[''Bob'']" "(''10.0.0.2'', 5001)"] sp unfolding ms by simp
  with run sp show ?thesis by simp
qed

lemma concat_lines_flush: "concat (map (\<lambda>n. n @ ''\<newline>'') xs) = spec_flush xs"
proof (induction "''\<newline>''" xs rule: py_join.induct)
  case (3 x y ys)
  then show ?case by (simp add: spec_flush_def)
qed (simp_all add: spec_flush_def)

lemma drain_reply:
  assumes "find_member_by_info ms si = Some i"
    and "split_on CHR '' '' message = tok # payload"
    and "tok = ''2'' \<or> tok = ''3'' \<or> tok = ''5''"
  shows "\<exists>ms'. handle_message message si ms = Inr (spec_flush (pending_messages (ms ! i)), ms')
           \<and> length ms' = length ms
           \<and> find_member_by_info ms' si = Some i
           \<and> pending_messages (ms' ! i) = []
           \<and> (tok = ''5'' \<longrightarrow> ms' = ms[i := clear_message_board (ms ! i)])"
proof -
  have i: "i < length ms" "port (ms ! i) = snd si"
    using find_SomeD[OF assms(1)] by simp_all
  have keep: "find_member_by_info ms' si = Some i" if "map port ms' = map port ms" for ms'
    using find_ports_cong[OF that, of si si] assms(1) by simp
  from assms(3) consider "tok = ''2''" | "tok = ''3''" | "tok = ''5''" by blast
  then show ?thesis
  proof cases
    case 1
    show ?thesis
      unfolding handle_message_send[OF assms(2)[unfolded 1] assms(1)] concat_lines_flush
      using i 1 by (simp add: keep ports_kept)
  next
    case 2
    show ?thesis
      unfolding handle_message_rename[OF assms(2)[unfolded 2] assms(1)] concat_lines_flush
      using i 2 by (simp add: keep ports_kept)
  next
    case 3
    show ?thesis
      unfolding handle_message_poll[OF assms(2)[unfolded 3] assms(1)] concat_lines_flush
      using i 3 ports_kept[of "\<lambda>m. m" i ms "clear_message_board (ms ! i)"]
      by (simp add: keep)
  qed
qed

lemma foldl_add_message_sel [simp]:
  "name (foldl add_message m added) = name m"
  "port (foldl add_message m added) = port m"
  "pending_messages (foldl add_message m added) = pending_messages m @ added"
  by (induction added arbitrary: m) simp_all

lemma clear_foldl_add_message [simp]:
  "clear_message_board (foldl add_message m added) = clear_message_board m"
  by (induction added arbitrary: m) (simp_all add: add_message_def clear_message_board_def)

lemma handle_message_sent_fits:
  "handle_message message si ms = Inr (response, ms') \<Longrightarrow> length response \<le> max_datagram \<Longrightarrow>
   handle_message_sent max_datagram message si ms = Inr (response, ms')"
  by (simp add: handle_message_sent_def sendto_def)

lemma handle_message_sent_too_long:
  "handle_message message si ms = Inr (response, ms') \<Longrightarrow> max_datagram < length response \<Longrightarrow>
   handle_message_sent max_datagram message si ms = Inl OSError"
  by (simp add: handle_message_sent_def sendto_def)

text \<open>
  C3 as stated fails on a mailbox whose flush does not fit in one datagram: with 33
  notifications of 2005 bytes pending for the member on port 5001 (each one a Send of 2000
  bytes by \<open>Bob\<close>), the flush has 66198 bytes, the socket refuses it, and the Poll ends in
  the unhandled \<^verbatim>\<open>OSError\<close> instead of a response and an empty mailbox.
\<close>

theorem mailbox_drain_oversize_counterexample:
  "handle_message_sent 65507 ''5'' (''10.0.0.1'', 5001)
     [\<lparr>name = ''Alice'', port = 5001,
       pending_messages = replicate 33 (''Bob: '' @ replicate 2000 CHR ''x'')\<rparr>,
      \<lparr>name = ''Bob'', port = 5002, pending_messages = []\<rparr>]
   = Inl OSError"
proof -
  let ?ms = "[\<lparr>name = ''Alice'', port = 5001,
               pending_messages = replicate 33 (''Bob: '' @ replicate 2000 CHR ''x'')\<rparr>,
              \<lparr>name = ''Bob'', port = 5002, pending_messages = []\<rparr>]"
  have f: "find_member_by_info ?ms (''10.0.0.1'', 5001) = Some 0" by simp
  have sp: "split_on CHR '' '' ''5'' = ''5'' # []" by simp
  have "(65507::nat) < length (concat (map (\<lambda>n. n @ ''\<newline>'')
           (replicate 33 (''Bob: '' @ replicate 2000 CHR ''x''))))"
    by (simp add: length_concat comp_def sum_list_replicate)
  then show ?thesis
    using handle_message_sent_too_long[OF handle_message_poll[OF sp f], of 65507] by simp
qed

text \<open>
  C3, amended. Let the member at position \<open>i\<close> be the registered sender, and let \<open>added\<close> be
  notifications appended to its mailbox one after the other by \<open>add_message\<close>. If the flush
  of the mailbox, which is what was pending before followed by \<open>added\<close>, fits in one
  datagram, then a Poll, and the drain that ends a Send or a Rename, responds with every
  one of these notifications once, in the order they were appended, each followed by a
  newline (the empty string when there is none); afterwards the same member is still
  registered with an empty mailbox, so that a Poll right after it is answered with the
  empty string. A Poll changes nothing else.
\<close>

theorem mailbox_drain_exactly_once:
  assumes "find_member_by_info ms si = Some i"
    and "split_on CHR '' '' message = tok # payload"
    and "tok = ''2'' \<or> tok = ''3'' \<or> tok = ''5''"
    and "length (spec_flush (pending_messages (ms ! i) @ added)) \<le> max_datagram"
  shows "\<exists>ms'. handle_message_sent max_datagram message si
                 (ms[i := foldl add_message (ms ! i) added])
               = Inr (spec_flush (pending_messages (ms ! i) @ added), ms')
           \<and> length ms' = length ms
           \<and> find_member_by_info ms' si = Some i
           \<and> pending_messages (ms' ! i) = []
           \<and> handle_message_sent max_datagram ''5'' si ms' = Inr ([], ms')
           \<and> (tok = ''5'' \<longrightarrow> ms' = ms[i := clear_message_board (ms ! i)])"
proof -
  let ?ms1 = "ms[i := foldl add_message (ms ! i) added]"
  have i: "i < length ms" "port (ms ! i) = snd si"
    using find_SomeD[OF assms(1)] by simp_all
  have "map port ?ms1 = map port ms"
    using ports_kept[of "\<lambda>m. m" i ms "foldl add_message (ms ! i) added"] i by simp
  then have f1: "find_member_by_info ?ms1 si = Some i"
    using find_ports_cong[of ?ms1 ms si si] assms(1) by simp
  have p1: "pending_messages (?ms1 ! i) = pending_messages (ms ! i) @ added"
    using i by simp
  obtain ms' where
    h: "handle_message message si ?ms1 = Inr (spec_flush (pending_messages (?ms1 ! i)), ms')" and
    l: "length ms' = length ?ms1" and
    f: "find_member_by_info ms' si = Some i" and
    e: "pending_messages (ms' ! i) = []" and
    p: "tok = ''5'' \<longrightarrow> ms' = ?ms1[i := clear_message_board (?ms1 ! i)]"
    using drain_reply[OF f1 assms(2) assms(3)] by blast
  have sent: "handle_message_sent max_datagram message si ?ms1
                = Inr (spec_flush (pending_messages (ms ! i) @ added), ms')"
    using handle_message_sent_fits[OF h] assms(4) unfolding p1 by simp
  have sp5: "split_on CHR '' '' ''5'' = ''5'' # []" by simp
  have "clear_message_board (ms' ! i) = ms' ! i"
    using e by (cases "ms' ! i") (simp add: clear_message_board_def)
  then have "ms'[i := clear_message_board (ms' ! i)] = ms'" by simp
  then have "handle_message ''5'' si ms' = Inr ([], ms')"
    using handle_message_poll[OF sp5 f] e by simp
  then have again: "handle_message_sent max_datagram ''5'' si ms' = Inr ([], ms')"
    using handle_message_sent_fits[of "''5''" si ms' "[]" ms' max_datagram] by simp
  have only: "tok = ''5'' \<longrightarrow> ms' = ms[i := clear_message_board (ms ! i)]"
    using p i by simp
  from sent l f e again only show ?thesis by auto
qed


theorem mailbox_drain_exactly_once_witness:
  "find_member_by_info
     [\<lparr>name = ''Alice'', port = 5001, pending_messages = [''Bob has joined'']\<rparr>,
      \<lparr>name = ''Bob'', port = 5002, pending_messages = []\<rparr>] (''10.0.0.1'', 5001) = Some 0 \<and>
   split_on CHR '' '' ''5'' = [''5''] \<and>
   length (spec_flush ([''Bob has joined''] @ [''Bob: hi'', ''Bob: there''])) \<le> 65507 \<and>
   serve [(''1 Alice'', (''10.0.0.1'', 5001)), (''1 Bob'', (''10.0.0.2'', 5002)),
          (''2 hi'', (''10.0.0.2'', 5002)), (''2 there'', (''10.0.0.2'', 5002))] []
   = Inr ([[], ''Alice'', [], []],
          [\<lparr>name = ''Alice'', port = 5001, pending_messages = [''Bob has joined'']\<rparr>,
           \<lparr>name = ''Bob'', port = 5002, pending_messages = []\<rparr>]
          [0 := foldl add_message
                  \<lparr>name = ''Alice'', port = 5001, pending_messages = [''Bob has joined'']\<rparr>
                  [''Bob: hi'', ''Bob: there'']]) \<and>
   handle_message_sent 65507 ''5'' (''10.0.0.1'', 5001)
     [\<lparr>name = ''Alice'', port = 5001,
       pending_messages = [''Bob has joined'', ''Bob: hi'', ''Bob: there'']\<rparr>,
      \<lparr>name = ''Bob'', port = 5002, pending_messages = []\<rparr>]
   = Inr (''Bob has joined\<newline>Bob: hi\<newline>Bob: there\<newline>'',
          [\<lparr>name = ''Alice'', port = 5001, pending_messages = []\<rparr>,
           \<lparr>name = ''Bob'', port = 5002, pending_messages = []\<rparr>]) \<and>
   handle_message_sent 65507 ''5'' (''10.0.0.1'', 5001)
     [\<lparr>name = ''Alice'', port = 5001, pending_messages = []\<rparr>,
      \<lparr>name = ''Bob'', port = 5002, pending_messages = []\<rparr>]
   = Inr ([], [\<lparr>name = ''Alice'', port = 5001, pending_messages = []\<rparr>,
               \<lparr>name = ''Bob'', port = 5002, pending_messages = []\<rparr>])"
proof -
  let ?A = "\<lparr>name = ''Alice'', port = 5001, pending_messages = [''Bob has joined'']\<rparr>"
  let ?B = "\<lparr>name = ''Bob'', port = 5002, pending_messages = []\<rparr>"
  let ?Full = "\<lparr>name = ''Alice'', port = 5001,
              pending_messages = [''Bob has joined'', ''Bob: hi'', ''Bob: there'']\<rparr>"
  let ?Empty = "\<lparr>name = ''Alice'', port = 5001, pending_messages = []\<rparr>"
  have f: "find_member_by_info [?A, ?B] (''10.0.0.1'', 5001) = Some 0" by simp
  have sp: "split_on CHR '' '' ''5'' = ''5'' # []" by simp
  have t: "''5'' = ''2'' \<or> ''5'' = ''3'' \<or> ''5'' = ''5''" by simp
  have fits: "length (spec_flush (pending_messages ([?A, ?B] ! 0) @ [''Bob: hi'', ''Bob: there'']))
                \<le> 65507"
    by (simp add: spec_flush_def)
  have reg: "[?A, ?B][0 := foldl add_message ([?A, ?B] ! 0) [''Bob: hi'', ''Bob: there'']]
               = [?Full, ?B]"
    by (simp add: add_message_def)
  have run: "serve [(''1 Alice'', (''10.0.0.1'', 5001)), (''1 Bob'', (''10.0.0.2'', 5002)),
                    (''2 hi'', (''10.0.0.2'', 5002)), (''2 there'', (''10.0.0.2'', 5002))] []
               = Inr ([[], ''Alice'', [], []], [?Full, ?B])"
    by code_simp
  have cl: "[?A, ?B][0 := clear_message_board ([?A, ?B] ! 0)] = [?Empty, ?B]"
    by (simp add: clear_message_board_def)
  have fl: "spec_flush (pending_messages ([?A, ?B] ! 0) @ [''Bob: hi'', ''Bob: there''])
              = ''Bob has joined\<newline>Bob: hi\<newline>Bob: there\<newline>''"
    by (simp add: spec_flush_def)
  obtain ms' where
    "handle_message_sent 65507 ''5'' (''10.0.0.1'', 5001)
        ([?A, ?B][0 := foldl add_message ([?A, ?B] ! 0) [''Bob: hi'', ''Bob: there'']])
      = Inr (spec_flush (pending_messages ([?A, ?B] ! 0) @ [''Bob: hi'', ''Bob: there'']), ms')"
    "handle_message_sent 65507 ''5'' (''10.0.0.1'', 5001) ms' = Inr ([], ms')"
    "ms' = [?A, ?B][0 := clear_message_board ([?A, ?B] ! 0)]"
    using mailbox_drain_exactly_once[OF f sp t fits] by blast
  then have
    "handle_message_sent 65507 ''5'' (''10.0.0.1'', 5001) [?Full, ?B]
       = Inr (''Bob has joined\<newline>Bob: hi\<newline>Bob: there\<newline>'', [?Empty, ?B])"
    "handle_message_sent 65507 ''5'' (''10.0.0.1'', 5001) [?Empty, ?B] = Inr ([], [?Empty, ?B])"
    unfolding reg cl fl by simp_all
  with f sp fits run reg show ?thesis by simp
qed

text \<open>
  C5. Leave. In a registry with pairwise distinct ports, a Leave (first token \<open>4\<close>) from
  the registered member at position \<open>i\<close> is answered with the empty string, so whatever was
  pending for that member is not delivered; the registry afterwards is the old one without
  the members on the sender's port, in the same order, each with
  \<open><name> has left the group\<close> appended to its mailbox. The port is then available: from
  the same address a Join registers a new member at the end of the registry, and every
  other request, Send, Rename and Poll among them, is answered \<open>Illegal request\<close> and
  changes nothing.
\<close>

theorem leave_finality:
  assumes "distinct (map port ms)"
    and "find_member_by_info ms si = Some i"
    and "split_on CHR '' '' message = ''4'' # payload"
  shows "\<exists>ms'. handle_message message si ms = Inr ([], ms')
           \<and> ms' = map (\<lambda>m. add_message m (name (ms ! i) @ '' has left the group''))
                      (filter (\<lambda>m. port m \<noteq> snd si) ms)
           \<and> is_port_available ms' si
           \<and> (\<forall>message' tok payload'. split_on CHR '' '' message' = tok # payload' \<longrightarrow>
                 handle_message message' si ms' =
                   (if tok = ''1''
                    then Inr (py_join '', '' (map name ms'),
                              map (\<lambda>m. add_message m (py_join '' '' payload' @ '' has joined'')) ms'
                              @ [\<lparr>name = py_join '' '' payload', port = snd si,
                                  pending_messages = []\<rparr>])
                    else Inr (''Illegal request'', ms')))"
proof -
  define ms' where "ms' = map (\<lambda>m. add_message m (name (ms ! i) @ '' has left the group''))
                            (filter (\<lambda>m. port m \<noteq> snd si) ms)"
  have i: "i < length ms" "port (ms ! i) = snd si"
    using find_SomeD[OF assms(2)] by simp_all
  have "remove_at i ms = filter (\<lambda>m. port m \<noteq> snd si) ms"
    using remove_at_filter[OF assms(1) i(1)] i(2) by simp
  then have h: "handle_message message si ms = Inr ([], ms')"
    using handle_message_leave[OF assms(3) assms(2)] by (simp add: ms'_def)
  have av: "is_port_available ms' si"
    by (auto simp: available_iff_port ms'_def)
  have "handle_message message' si ms' =
          (if tok = ''1''
           then Inr (py_join '', '' (map name ms'),
                     map (\<lambda>m. add_message m (py_join '' '' payload' @ '' has joined'')) ms'
                     @ [\<lparr>name = py_join '' '' payload', port = snd si, pending_messages = []\<rparr>])
           else Inr (''Illegal request'', ms'))"
    if "split_on CHR '' '' message' = tok # payload'" for message' tok payload'
  proof (cases "tok = ''1''")
    case True
    then show ?thesis using handle_message_join[OF that[unfolded True] av] by simp
  next
    case False
    then show ?thesis using handle_message_unregistered[OF that False av] by simp
  qed
  with h av show ?thesis unfolding ms'_def by blast
qed

theorem leave_finality_witness:
  "distinct (map port
     [\<lparr>name = ''Alice'', port = 5001, pending_messages = [''Bob: hi'']\<rparr>,
      \<lparr>name = ''Bob'', port = 5002, pending_messages = []\<rparr>]) \<and>
   find_member_by_info
     [\<lparr>name = ''Alice'', port = 5001, pending_messages = [''Bob: hi'']\<rparr>,
      \<lparr>name = ''Bob'', port = 5002, pending_messages = []\<rparr>] (''10.0.0.1'', 5001) = Some 0 \<and>
   split_on CHR '' '' ''4'' = [''4''] \<and>
   handle_message ''4'' (''10.0.0.1'', 5001)
     [\<lparr>name = ''Alice'', port = 5001, pending_messages = [''Bob: hi'']\<rparr>,
      \<lparr>name = ''Bob'', port = 5002, pending_messages = []\<rparr>]
   = Inr ([], [\<lparr>name = ''Bob'', port = 5002, pending_messages = [''Alice has left the group'']\<rparr>]) \<and>
   split_on CHR '' '' ''5'' = [''5''] \<and>
   handle_message ''5'' (''10.0.0.1'', 5001)
     [\<lparr>name = ''Bob'', port = 5002, pending_messages = [''Alice has left the group'']\<rparr>]
   = Inr (''Illegal request'',
          [\<lparr>name = ''Bob'', port = 5002, pending_messages = [''Alice has left the group'']\<rparr>])"
proof -
  let ?ms = "[\<lparr>name = ''Alice'', port = 5001, pending_messages = [''Bob: hi'']\<rparr>,
              \<lparr>name = ''Bob'', port = 5002, pending_messages = []\<rparr>]"
  have d: "distinct (map port ?ms)" by simp
  have f: "find_member_by_info ?ms (''10.0.0.1'', 5001) = Some 0" by simp
  have sp: "split_on CHR '' '' ''4'' = ''4'' # []" by simp
  have sp5: "split_on CHR '' '' ''5'' = ''5'' # []" by simp
  obtain ms' where
    h: "handle_message ''4'' (''10.0.0.1'', 5001) ?ms = Inr ([], ms')" and
    ms': "ms' = map (\<lambda>m. add_message m (name (?ms ! 0) @ '' has left the group''))
                  (filter (\<lambda>m. port m \<noteq> snd (''10.0.0.1'', 5001::int)) ?ms)" and
    nxt: "\<And>message' tok payload'. split_on CHR '' '' message' = tok # payload' \<Longrightarrow>
            handle_message message' (''10.0.0.1'', 5001) ms' =
              (if tok = ''1''
               then Inr (py_join '', '' (map name ms'),
                         map (\<lambda>m. add_message m (py_join '' '' payload' @ '' has joined'')) ms'
                         @ [\<lparr>name = py_join '' '' payload', port = snd (''10.0.0.1'', 5001::int),
                             pending_messages = []\<rparr>])
               else Inr (''Illegal request'', ms'))"
    using leave_finality[OF d f sp] by blast
  have v: "ms' = [\<lparr>name = ''Bob'', port = 5002, pending_messages = [''Alice has left the group'']\<rparr>]"
    unfolding ms' by (simp add: add_message_def)
  show ?thesis
    using d f sp sp5 h nxt[OF sp5] unfolding v by simp
qed

text \<open>
  C10. A Join whose raw message is exactly \<open>1\<close>, from an address whose port is free, is
  not rejected: the response is the list of the members' names, every member already
  registered gains the notification \<open> has joined\<close> (a leading space after the empty
  name), and a member with the empty string as its name is registered on the sender's
  port.
\<close>

theorem join_without_payload:
  "is_port_available ms si \<Longrightarrow>
   handle_message ''1'' si ms =
     Inr (py_join '', '' (map name ms),
          map (\<lambda>m. add_message m '' has joined'') ms
          @ [\<lparr>name = [], port = snd si, pending_messages = []\<rparr>])"
  using handle_message_join[of "''1''" "[]" ms si] by simp

theorem join_without_payload_witness:
  "is_port_available [\<lparr>name = ''Alice'', port = 5001, pending_messages = []\<rparr>] (''10.0.0.2'', 5002) \<and>
   handle_message ''1'' (''10.0.0.2'', 5002) [\<lparr>name = ''Alice'', port = 5001, pending_messages = []\<rparr>]
   = Inr (''Alice'',
          [\<lparr>name = ''Alice'', port = 5001, pending_messages = ['' has joined'']\<rparr>,
           \<lparr>name = [], port = 5002, pending_messages = []\<rparr>])"
proof -
  have a: "is_port_available [\<lparr>name = ''Alice'', port = 5001, pending_messages = []\<rparr>]
             (''10.0.0.2'', 5002)" by simp
  show ?thesis using join_without_payload[OF a] a by (simp add: add_message_def)
qed

lemma handle_message_snd:
  assumes "snd si = snd si'"
  shows "handle_message message si ms = handle_message message si' ms"
proof -
  have f: "find_member_by_info xs si = find_member_by_info xs si'" for xs
    using find_ports_cong[of xs xs si si'] assms by simp
  have a: "is_port_available xs si = is_port_available xs si'" for xs
    using available_ports_cong[of xs xs si si'] assms by simp
  show ?thesis
    unfolding handle_message_def join_group_def send_message_def change_name_def
      leave_group_def refresh_messages_def display_other_members_def f a assms
    by (rule refl)
qed

lemma serve_snd:
  "list_all2 (\<lambda>(m, si) (m', si'). m = m' \<and> snd si = snd si') commands commands' \<Longrightarrow>
   serve commands ms = serve commands' ms"
proof (induction commands commands' arbitrary: ms rule: list_all2_induct)
  case Nil
  show ?case by simp
next
  case (Cons c cs c' cs')
  obtain m si si' where c: "c = (m, si)" "c' = (m, si')" "snd si = snd si'"
    using Cons.hyps(1) by (cases c; cases c') auto
  show ?case
    unfolding c serve.simps handle_message_snd[OF c(3), of m ms]
    using Cons.IH by (simp split: sum.splits prod.splits)
qed

text \<open>
  C7. Port-only identity. Two sequences of datagrams with the same messages, whose sender
  addresses agree on the port wherever they differ in the IP address, produce the same
  responses and the same registry from any starting registry (a crash included). In
  particular one request is handled the same way from any two hosts using one port.
\<close>

theorem port_only_identity:
  "(list_all2 (\<lambda>(m, si) (m', si'). m = m' \<and> snd si = snd si') commands commands' \<longrightarrow>
      serve commands ms = serve commands' ms) \<and>
   handle_message message (ip, p) ms = handle_message message (ip', p) ms"
  using serve_snd[of commands commands' ms] handle_message_snd[of "(ip, p)" "(ip', p)" message ms]
  by simp

theorem port_only_identity_witness:
  "list_all2 (\<lambda>(m, si) (m', si'). m = m' \<and> snd si = snd si')
     [(''1 Alice'', (''10.0.0.1'', 5001::int)), (''1 Bob'', (''10.0.0.2'', 5002)),
      (''2 hello'', (''10.0.0.1'', 5001)), (''5'', (''10.0.0.2'', 5002))]
     [(''1 Alice'', (''10.0.0.1'', 5001::int)), (''1 Bob'', (''10.0.0.2'', 5002)),
      (''2 hello'', (''10.0.0.1'', 5001)), (''5'', (''192.168.7.7'', 5002))] \<and>
   serve
     [(''1 Alice'', (''10.0.0.1'', 5001)), (''1 Bob'', (''10.0.0.2'', 5002)),
      (''2 hello'', (''10.0.0.1'', 5001)), (''5'', (''10.0.0.2'', 5002))] []
   = serve
     [(''1 Alice'', (''10.0.0.1'', 5001)), (''1 Bob'', (''10.0.0.2'', 5002)),
      (''2 hello'', (''10.0.0.1'', 5001)), (''5'', (''192.168.7.7'', 5002))] [] \<and>
   serve
     [(''1 Alice'', (''10.0.0.1'', 5001)), (''1 Bob'', (''10.0.0.2'', 5002)),
      (''2 hello'', (''10.0.0.1'', 5001)), (''5'', (''192.168.7.7'', 5002))] []
   = Inr ([[], ''Alice'', ''Bob has joined\<newline>'', ''Alice: hello\<newline>''],
          [\<lparr>name = ''Alice'', port = 5001, pending_messages = []\<rparr>,
           \<lparr>name = ''Bob'', port = 5002, pending_messages = []\<rparr>])"
proof -
  let ?c = "[(''1 Alice'', (''10.0.0.1'', 5001::int)), (''1 Bob'', (''10.0.0.2'', 5002)),
      (''2 hello'', (''10.0.0.1'', 5001)), (''5'', (''10.0.0.2'', 5002))]"
  let ?c' = "[(''1 Alice'', (''10.0.0.1'', 5001::int)), (''1 Bob'', (''10.0.0.2'', 5002)),
      (''2 hello'', (''10.0.0.1'', 5001)), (''5'', (''192.168.7.7'', 5002))]"
  have l: "list_all2 (\<lambda>(m, si) (m', si'). m = m' \<and> snd si = snd si') ?c ?c'" by simp
  have e: "serve ?c [] = serve ?c' []"
    using port_only_identity[of ?c ?c' "[]"] l by blast
  have v: "serve ?c' [] = Inr ([[], ''Alice'', ''Bob has joined\<newline>'', ''Alice: hello\<newline>''],
          [\<lparr>name = ''Alice'', port = 5001, pending_messages = []\<rparr>,
           \<lparr>name = ''Bob'', port = 5002, pending_messages = []\<rparr>])"
    by code_simp
  from l e v show ?thesis by blast
qed

text \<open>
  C8 as stated fails on ports 5001 and 5002: the Poll's response carries the newline that
  \<^verbatim>\<open>refresh_messages\<close> appends after every entry, so it is not exactly \<open>Bob has joined\<close>.
\<close>

theorem scenario_one_poll_counterexample:
  "serve [(''1 Alice'', (''10.0.0.1'', 5001)), (''1 Bob'', (''10.0.0.2'', 5002)),
          (''5'', (''10.0.0.1'', 5001))] []
   = Inr ([[], ''Alice'', ''Bob has joined\<newline>''],
          [\<lparr>name = ''Alice'', port = 5001, pending_messages = []\<rparr>,
           \<lparr>name = ''Bob'', port = 5002, pending_messages = []\<rparr>]) \<and>
   ''Bob has joined\<newline>'' \<noteq> ''Bob has joined''"
  by code_simp

text \<open>
  C8, amended. Scenario 1 with two distinct ports: from the empty registry, Join
  \<open>Alice\<close> from port \<open>P1\<close> is answered with the empty string, Join \<open>Bob\<close> from port \<open>P2\<close>
  with \<open>Alice\<close>, and the Poll from \<open>P1\<close> with the flushed mailbox, which is
  \<open>Bob has joined\<close> followed by a newline.
\<close>

theorem scenario_one:
  "P1 \<noteq> P2 \<Longrightarrow>
   serve [(''1 Alice'', (ip1, P1)), (''1 Bob'', (ip2, P2)), (''5'', (ip3, P1))] []
   = Inr ([[], ''Alice'', ''Bob has joined\<newline>''],
          [\<lparr>name = ''Alice'', port = P1, pending_messages = []\<rparr>,
           \<lparr>name = ''Bob'', port = P2, pending_messages = []\<rparr>])"
proof -
  assume ne: "P1 \<noteq> P2"
  let ?A = "\<lparr>name = ''Alice'', port = P1, pending_messages = []\<rparr>"
  let ?A' = "\<lparr>name = ''Alice'', port = P1, pending_messages = [''Bob has joined'']\<rparr>"
  let ?B = "\<lparr>name = ''Bob'', port = P2, pending_messages = []\<rparr>"
  have 1: "handle_message ''1 Alice'' (ip1, P1) [] = Inr ([], [?A])"
    using handle_message_join[of "''1 Alice''" "[''Alice'']" "[]" "(ip1, P1)"] by simp
  have 2: "handle_message ''1 Bob'' (ip2, P2) [?A] = Inr (''Alice'', [?A', ?B])"
    using handle_message_join[of "''1 Bob''" "[''Bob'']" "[?A]" "(ip2, P2)"] ne
    by (simp add: add_message_def)
  have 3: "handle_message ''5'' (ip3, P1) [?A', ?B] = Inr (''Bob has joined\<newline>'', [?A, ?B])"
    using handle_message_poll[of "''5''" "[]" "[?A', ?B]" "(ip3, P1)" 0]
    by (simp add: clear_message_board_def)
  show ?thesis by (simp add: 1 2 3)
qed

theorem scenario_one_witness:
  "(5001::int) \<noteq> 5002 \<and>
   serve [(''1 Alice'', (''10.0.0.1'', 5001)), (''1 Bob'', (''10.0.0.2'', 5002)),
          (''5'', (''10.0.0.1'', 5001))] []
   = Inr ([[], ''Alice'', ''Bob has joined\<newline>''],
          [\<lparr>name = ''Alice'', port = 5001, pending_messages = []\<rparr>,
           \<lparr>name = ''Bob'', port = 5002, pending_messages = []\<rparr>])"
proof -
  have ne: "(5001::int) \<noteq> 5002" by simp
  show ?thesis
    using scenario_one[OF ne, of "''10.0.0.1''" "''10.0.0.2''" "''10.0.0.1''"] ne by simp
qed

text \<open>
  C9 as stated fails: no raw input decodes to an empty token list.
\<close>

theorem no_zero_token_input_counterexample:
  "\<not> (\<exists>message. split_on CHR '' '' message = [])"
  using split_on_not_Nil by blast

lemma handle_message_total:
  "\<exists>response ms'. handle_message message si ms = Inr (response, ms')"
proof (cases message ms si rule: handle_message_cases)
  case (join payload)
  then show ?thesis using handle_message_join[OF join] by simp
next
  case (taken payload)
  then show ?thesis using handle_message_join_taken[OF taken] by simp
next
  case (unregistered tok payload)
  then show ?thesis using handle_message_unregistered[OF unregistered] by simp
next
  case (send payload i)
  then show ?thesis using handle_message_send[OF send] by simp
next
  case (rename payload i)
  then show ?thesis using handle_message_rename[OF rename] by simp
next
  case (leave payload i)
  then show ?thesis using handle_message_leave[OF leave] by simp
next
  case (poll payload i)
  then show ?thesis using handle_message_poll[OF poll] by simp
next
  case (unrecognized tok payload i)
  then show ?thesis using handle_message_unrecognized[of message tok payload si ms] by simp
qed

text \<open>
  C9, amended. Splitting on single spaces yields at least one token for every raw input
  (the empty input yields the single empty token), so no request has zero tokens and the
  dispatcher never fails on reading the first token, with or without the socket.
\<close>

theorem first_token_always_read:
  "split_on CHR '' '' message \<noteq> [] \<and>
   split_on CHR '' '' [] = [[]] \<and>
   handle_message message si ms \<noteq> Inl IndexError \<and>
   handle_message_sent max_datagram message si ms \<noteq> Inl IndexError"
proof -
  obtain response ms' where h: "handle_message message si ms = Inr (response, ms')"
    using handle_message_total by blast
  then have "handle_message_sent max_datagram message si ms \<noteq> Inl IndexError"
    by (simp add: handle_message_sent_def sendto_def)
  with h show ?thesis using split_on_not_Nil[of "CHR '' ''" message] by simp
qed

lemma flush_not_illegal: "concat (map (\<lambda>n. n @ ''\<newline>'') xs) \<noteq> ''Illegal request''"
proof (cases xs)
  case Nil
  then show ?thesis by simp
next
  case (Cons x xs')
  then have "CHR 0x0A \<in> set (concat (map (\<lambda>n. n @ ''\<newline>'') xs))" by simp
  moreover have "CHR 0x0A \<notin> set ''Illegal request''" by simp
  ultimately show ?thesis by metis
qed

lemma names_illegal:
  "py_join '', '' (map name ms) = ''Illegal request''
     \<longleftrightarrow> (\<exists>m. ms = [m] \<and> name m = ''Illegal request'')"
proof (cases ms)
  case Nil
  then show ?thesis by simp
next
  case (Cons m ms')
  show ?thesis
  proof (cases ms')
    case Nil
    with Cons show ?thesis by simp
  next
    case (Cons m' ms'')
    have "CHR '','' \<in> set (py_join '', '' (map name (m # m' # ms'')))" by simp
    moreover have "CHR '','' \<notin> set ''Illegal request''" by simp
    ultimately have "py_join '', '' (map name (m # m' # ms'')) \<noteq> ''Illegal request''"
      by metis
    with \<open>ms = m # ms'\<close> Cons show ?thesis by simp
  qed
qed

text \<open>
  C4, amended. For a request with first token \<open>tok\<close>, call the sender registered when its
  port is the port of a member. The dispatcher answers every request, and it answers
  \<open>Illegal request\<close> while leaving the registry and all mailboxes as they were if and only
  if (a) \<open>tok\<close> is \<open>1\<close> and the sender is registered, or (b) \<open>tok\<close> is not \<open>1\<close> and the sender
  is not registered, or (c) the sender is registered and \<open>tok\<close> is none of \<open>1\<close> to \<open>5\<close>. The
  response text alone is \<open>Illegal request\<close> in those cases and in exactly one more: a Join
  from an unregistered sender into a registry of one member whose name is
  \<open>Illegal request\<close>, where the text is the list of the other members' names.
\<close>

theorem illegal_request_conditions:
  assumes "split_on CHR '' '' message = tok # payload"
  shows "\<exists>response ms'. handle_message message si ms = Inr (response, ms') \<and>
    ((tok = ''1'' \<and> snd si \<in> port ` set ms
      \<or> tok \<noteq> ''1'' \<and> snd si \<notin> port ` set ms
      \<or> snd si \<in> port ` set ms \<and> tok \<notin> {''1'', ''2'', ''3'', ''4'', ''5''})
     \<longleftrightarrow> response = ''Illegal request'' \<and> ms' = ms) \<and>
    (response = ''Illegal request''
     \<longleftrightarrow> (tok = ''1'' \<and> snd si \<in> port ` set ms
          \<or> tok \<noteq> ''1'' \<and> snd si \<notin> port ` set ms
          \<or> snd si \<in> port ` set ms \<and> tok \<notin> {''1'', ''2'', ''3'', ''4'', ''5''})
         \<or> (tok = ''1'' \<and> snd si \<notin> port ` set ms
             \<and> (\<exists>m. ms = [m] \<and> name m = ''Illegal request'')))"
proof (cases message ms si rule: handle_message_cases)
  case (join payload')
  have t: "tok = ''1''" using assms join(1) by simp
  have r: "snd si \<notin> port ` set ms" using join(2) available_iff_port by simp
  show ?thesis
    unfolding handle_message_join[OF join] using t r names_illegal[of ms] by simp
next
  case (taken payload')
  have t: "tok = ''1''" using assms taken(1) by simp
  have r: "snd si \<in> port ` set ms" using taken(2) available_iff_port by simp
  show ?thesis
    unfolding handle_message_join_taken[OF taken] using t r by simp
next
  case (unregistered tok' payload')
  have t: "tok \<noteq> ''1''" using assms unregistered(1,2) by simp
  have r: "snd si \<notin> port ` set ms" using unregistered(3) available_iff_port by simp
  show ?thesis
    unfolding handle_message_unregistered[OF unregistered] using t r by simp
next
  case (send payload' i)
  have t: "tok = ''2''" using assms send(1) by simp
  have r: "snd si \<in> port ` set ms"
    using send(2) find_None_iff[of ms si] available_iff_port[of ms si] by simp
  show ?thesis
    unfolding handle_message_send[OF send] using t r flush_not_illegal by simp
next
  case (rename payload' i)
  have t: "tok = ''3''" using assms rename(1) by simp
  have r: "snd si \<in> port ` set ms"
    using rename(2) find_None_iff[of ms si] available_iff_port[of ms si] by simp
  show ?thesis
    unfolding handle_message_rename[OF rename] using t r flush_not_illegal by simp
next
  case (leave payload' i)
  have t: "tok = ''4''" using assms leave(1) by simp
  have r: "snd si \<in> port ` set ms"
    using leave(2) find_None_iff[of ms si] available_iff_port[of ms si] by simp
  show ?thesis
    unfolding handle_message_leave[OF leave] using t r by simp
next
  case (poll payload' i)
  have t: "tok = ''5''" using assms poll(1) by simp
  have r: "snd si \<in> port ` set ms"
    using poll(2) find_None_iff[of ms si] available_iff_port[of ms si] by simp
  show ?thesis
    unfolding handle_message_poll[OF poll] using t r flush_not_illegal by simp
next
  case (unrecognized tok' payload' i)
  have t: "tok \<notin> {''1'', ''2'', ''3'', ''4'', ''5''}" using assms unrecognized(1-6) by simp
  have r: "snd si \<in> port ` set ms"
    using unrecognized(7) find_None_iff[of ms si] available_iff_port[of ms si] by simp
  show ?thesis
    unfolding handle_message_unrecognized[OF unrecognized(1-6)] using t r by simp
qed

theorem illegal_request_conditions_witness:
  "split_on CHR '' '' ''2 hi'' = [''2'', ''hi''] \<and>
   handle_message ''2 hi'' (''10.0.0.1'', 5001) [] = Inr (''Illegal request'', [])"
proof -
  have sp: "split_on CHR '' '' ''2 hi'' = ''2'' # [''hi'']" by simp
  show ?thesis
    using illegal_request_conditions[OF sp, of "(''10.0.0.1'', 5001)" "[]"] sp
    by auto
qed

text \<open>
  C4 as stated fails. After \<open>Illegal request\<close> has joined as a name from port 5001, a Join
  from the unregistered port 5002 is answered with the text \<open>Illegal request\<close>, the list
  of the other members' names, although none of (a), (b), (c) holds; and this request
  changes the registry.
\<close>

theorem illegal_request_text_counterexample:
  "serve [(''1 Illegal request'', (''10.0.0.1'', 5001)), (''1 Bob'', (''10.0.0.2'', 5002))] []
   = Inr ([[], ''Illegal request''],
          [\<lparr>name = ''Illegal request'', port = 5001, pending_messages = [''Bob has joined'']\<rparr>,
           \<lparr>name = ''Bob'', port = 5002, pending_messages = []\<rparr>]) \<and>
   is_port_available [\<lparr>name = ''Illegal request'', port = 5001, pending_messages = []\<rparr>]
     (''10.0.0.2'', 5002) \<and>
   handle_message ''1 Bob'' (''10.0.0.2'', 5002)
     [\<lparr>name = ''Illegal request'', port = 5001, pending_messages = []\<rparr>]
   = Inr (''Illegal request'',
          [\<lparr>name = ''Illegal request'', port = 5001, pending_messages = [''Bob has joined'']\<rparr>,
           \<lparr>name = ''Bob'', port = 5002, pending_messages = []\<rparr>])"
  by code_simp

text \<open>
  C2 fails on the code for Send: \<^verbatim>\<open>send_message\<close> skips every member whose name equals
  the sender's, not only the sender. With two members named \<open>Alice\<close> on ports 5001 and
  5002, the message \<open>hi\<close> sent from port 5001 reaches no mailbox: the following Poll from
  port 5002 is answered with the empty string.
\<close>

theorem send_message_skips_namesake:
  "serve [(''1 Alice'', (''10.0.0.1'', 5001)), (''1 Alice'', (''10.0.0.2'', 5002)),
          (''5'', (''10.0.0.1'', 5001)), (''2 hi'', (''10.0.0.1'', 5001)),
          (''5'', (''10.0.0.2'', 5002))] []
   = Inr ([[], ''Alice'', ''Alice has joined\<newline>'', [], []],
          [\<lparr>name = ''Alice'', port = 5001, pending_messages = []\<rparr>,
           \<lparr>name = ''Alice'', port = 5002, pending_messages = []\<rparr>])"
  by code_simp

end
